theory Spec2Isabelle
  imports Main "HOL-Library.AList"
begin

section \<open>Strings and library functions\<close>

text \<open>
  A string is the list of the bytes of its UTF-8 encoding. The characters that the
  server looks for (\<open>=\<close>, \<open>[\<close>, \<open>]\<close>, \<open>.\<close>, \<open>_\<close>) are ASCII characters, which stand for
  themselves in that encoding and are part of no other character, so membership,
  \<open>split\<close> and \<open>replace\<close> act on the bytes as they act on the characters.

  The library functions that the server calls are parameters: \<open>str.upper\<close>,
  \<open>int\<close> on a string (\<open>None\<close> for \<open>ValueError\<close>), \<open>fnmatch.fnmatch\<close>, \<open>float\<close> on a string
  (\<open>None\<close> for \<open>ValueError\<close>) and on an integer (\<open>None\<close> for \<open>OverflowError\<close>), whether
  \<open>time.ctime\<close> can print a time, whether a floating point number differs from zero, and
  whether \<open>time.sleep\<close> accepts a number of seconds (it raises on a negative number, on a
  number too large and on one that is no number). Floating point numbers are values of
  a type \<open>'f\<close> that is left open.
\<close>

record 'f pylib =
  str_upper :: "string \<Rightarrow> string"
  str_int :: "string \<Rightarrow> int option"
  fnmatch :: "string \<Rightarrow> string \<Rightarrow> bool"
  py_float :: "string \<Rightarrow> 'f option"
  int_to_float :: "int \<Rightarrow> 'f option"
  ctime_ok :: "'f \<Rightarrow> bool"
  float_nonzero :: "'f \<Rightarrow> bool"
  sleep_ok :: "'f \<Rightarrow> bool"

subsection \<open>A library for the examples\<close>

text \<open>
  The examples below run on strings of ASCII characters. On these \<open>str.upper\<close> maps the
  letters \<open>a\<close> to \<open>z\<close> to \<open>A\<close> to \<open>Z\<close> and leaves the rest, and \<open>int\<close> reads a number in
  base ten: the white space around it is dropped (the characters \<open>0x09\<close> to \<open>0x0D\<close> and
  the blank), one sign may come first, then decimal digits, where a single underscore
  may stand between two digits.
\<close>

definition ascii_upper_char :: "char \<Rightarrow> char" where
  "ascii_upper_char c =
     (let n = (of_char c :: nat) in if 97 \<le> n \<and> n \<le> 122 then char_of (n - 32) else c)"

definition ascii_upper :: "string \<Rightarrow> string" where
  "ascii_upper s = map ascii_upper_char s"

definition is_space :: "char \<Rightarrow> bool" where
  "is_space c = (let n = (of_char c :: nat) in (9 \<le> n \<and> n \<le> 13) \<or> n = 32)"

definition is_digit :: "char \<Rightarrow> bool" where
  "is_digit c = (let n = (of_char c :: nat) in 48 \<le> n \<and> n \<le> 57)"

definition digit_val :: "char \<Rightarrow> nat" where
  "digit_val c = of_char c - 48"

definition strip :: "string \<Rightarrow> string" where
  "strip s = rev (dropWhile is_space (rev (dropWhile is_space s)))"

fun digits :: "string \<Rightarrow> nat \<Rightarrow> nat option" where
  "digits [] acc = Some acc"
| "digits (c # cs) acc =
     (if is_digit c then digits cs (10 * acc + digit_val c)
      else if c = CHR ''_'' then
        (case cs of
           [] \<Rightarrow> None
         | d # ds \<Rightarrow> if is_digit d then digits cs acc else None)
      else None)"

definition unsigned :: "string \<Rightarrow> nat option" where
  "unsigned s = (case s of [] \<Rightarrow> None | c # cs \<Rightarrow> if is_digit c then digits s 0 else None)"

definition ascii_int :: "string \<Rightarrow> int option" where
  "ascii_int s =
     (case strip s of
        [] \<Rightarrow> None
      | c # cs \<Rightarrow>
          if c = CHR ''-'' then map_option (\<lambda>n. - int n) (unsigned cs)
          else if c = CHR ''+'' then map_option int (unsigned cs)
          else map_option int (unsigned (c # cs)))"

text \<open>
  In this library \<open>fnmatch\<close> is right for the pattern \<open>*\<close> and for patterns without
  wildcard characters, and the floating point numbers are the whole numbers.
\<close>

definition example_lib :: "int pylib" where
  "example_lib =
     \<lparr> str_upper = ascii_upper,
       str_int = ascii_int,
       fnmatch = (\<lambda>nm pat. pat = ''*'' \<or> nm = pat),
       py_float = ascii_int,
       int_to_float = Some,
       ctime_ok = (\<lambda>t. True),
       float_nonzero = (\<lambda>x. x \<noteq> 0),
       sleep_ok = (\<lambda>x. 0 \<le> x) \<rparr>"

section \<open>Tag specifications given on the command line (\<open>main\<close>)\<close>

text \<open>
  \<open>main\<close> receives the positional arguments \<open>args.tags\<close> and turns each of them into a
  tag: a name, a CIP type and a size.
\<close>

datatype cip_type = CIP_SINT | CIP_INT | CIP_DINT

datatype tag_error =
    Mismatched_brackets    \<comment> \<open>\<open>assert ']' in rest\<close>\<close>
  | Unexpected_rest        \<comment> \<open>\<open>assert not rest\<close>\<close>
  | Invalid_tag_type       \<comment> \<open>\<open>assert tag_type in typenames\<close>\<close>
  | Invalid_tag_size       \<comment> \<open>\<open>raise AssertionError( "Invalid tag size" )\<close>\<close>
  | No_tags                \<comment> \<open>argparse refuses an empty \<open>nargs="+"\<close> list\<close>

text \<open>\<open>s.split( c, 1 )\<close> for a separator that occurs in \<open>s\<close>: the text before the first
  occurrence and the text after it.\<close>

definition split1 :: "char \<Rightarrow> string \<Rightarrow> string \<times> string" where
  "split1 c s = (takeWhile (\<lambda>x. x \<noteq> c) s, drop 1 (dropWhile (\<lambda>x. x \<noteq> c) s))"

text \<open>The dictionary \<open>typenames\<close>.\<close>

definition typenames :: "string \<Rightarrow> cip_type option" where
  "typenames s =
     (if s = ''INT'' then Some CIP_INT
      else if s = ''DINT'' then Some CIP_DINT
      else if s = ''SINT'' then Some CIP_SINT
      else None)"

subsection \<open>One tag specification\<close>

text \<open>
  The body of the loop \<open>for t in args.tags\<close> up to the conversion of the size. The size is
  the integer \<open>1\<close> when no bracket is given, and the text between the brackets otherwise.
\<close>

definition parse_tag :: "'f pylib \<Rightarrow> string \<Rightarrow> tag_error + (string \<times> cip_type \<times> int)" where
  "parse_tag lib t =
     (let (tag_name, rest) = (if CHR ''='' \<in> set t then split1 (CHR ''='') t else (t, ''''));
          tag_type = (if rest \<noteq> [] then rest else ''INT'')
      in if CHR ''['' \<in> set tag_type then
           (let (tag_type, rest) = split1 (CHR ''['') tag_type
            in if CHR '']'' \<notin> set rest then Inl Mismatched_brackets
               else
                 (let (tag_size, rest) = split1 (CHR '']'') rest
                  in if rest \<noteq> [] then Inl Unexpected_rest
                     else
                       (case typenames (str_upper lib tag_type) of
                          None \<Rightarrow> Inl Invalid_tag_type
                        | Some ty \<Rightarrow>
                            (case str_int lib tag_size of
                               None \<Rightarrow> Inl Invalid_tag_size
                             | Some n \<Rightarrow> Inr (tag_name, ty, n)))))
         else
           (case typenames (str_upper lib tag_type) of
              None \<Rightarrow> Inl Invalid_tag_type
            | Some ty \<Rightarrow> Inr (tag_name, ty, 1)))"

subsection \<open>Creating the tags\<close>

text \<open>
  \<open>device.Attribute( name, type, default )\<close> keeps what it is given. The default value
  is the scalar \<open>0\<close> for size one and the list \<open>[0 for i in range( tag_size )]\<close> otherwise;
  \<open>range\<close> of a negative number is empty.
\<close>

datatype tag_value = Scalar int | Array "int list"

record attribute =
  attr_name :: string
  attr_type :: cip_type
  attr_default :: tag_value

record tag =
  tag_attribute :: attribute
  tag_error :: int

definition default_value :: "int \<Rightarrow> tag_value" where
  "default_value tag_size = (if tag_size = 1 then Scalar 0 else Array (replicate (nat tag_size) 0))"

definition make_tag :: "string \<Rightarrow> cip_type \<Rightarrow> int \<Rightarrow> tag" where
  "make_tag tag_name ty tag_size =
     \<lparr> tag_attribute = \<lparr> attr_name = tag_name, attr_type = ty,
                          attr_default = default_value tag_size \<rparr>,
       tag_error = 0 \<rparr>"

text \<open>The loop over \<open>args.tags\<close>: the first failing specification ends \<open>main\<close>.\<close>

fun define_tags ::
  "'f pylib \<Rightarrow> (string \<rightharpoonup> tag) \<Rightarrow> string list \<Rightarrow> tag_error + (string \<rightharpoonup> tag)" where
  "define_tags lib tags [] = Inr tags"
| "define_tags lib tags (t # ts) =
     (case parse_tag lib t of
        Inl e \<Rightarrow> Inl e
      | Inr (tag_name, ty, tag_size) \<Rightarrow>
          define_tags lib (tags(tag_name \<mapsto> make_tag tag_name ty tag_size)) ts)"

definition main_tags :: "'f pylib \<Rightarrow> string list \<Rightarrow> tag_error + (string \<rightharpoonup> tag)" where
  "main_tags lib argv_tags =
     (if argv_tags = [] then Inl No_tags else define_tags lib Map.empty argv_tags)"

text \<open>
  The words of the specification for the default value of a tag of a given size: the
  scalar \<open>0\<close> when the size is one, otherwise a list of that many zeros.
\<close>

definition zeros_of_size :: "int \<Rightarrow> tag_value \<Rightarrow> bool" where
  "zeros_of_size sz v =
     (case v of
        Scalar x \<Rightarrow> sz = 1 \<and> x = 0
      | Array xs \<Rightarrow> sz \<noteq> 1 \<and> int (length xs) = sz \<and> list_all (\<lambda>x. x = 0) xs)"

text \<open>The default value of the tag of a name after \<open>main\<close>, if \<open>main\<close> has created one.\<close>

definition created_default :: "tag_error + (string \<rightharpoonup> tag) \<Rightarrow> string \<Rightarrow> tag_value option" where
  "created_default r n =
     (case r of
        Inl e \<Rightarrow> None
      | Inr tags \<Rightarrow> map_option (\<lambda>tg. attr_default (tag_attribute tg)) (tags n))"


section \<open>The control plane (\<open>api_request\<close>)\<close>

text \<open>
  The globals \<open>options\<close>, \<open>connections\<close> and \<open>tags\<close> are dictionaries of named entries;
  an entry that the web API serves is itself a dictionary of attributes. A dictionary is
  an association list in the order in which \<open>dir\<close> lists its public names; the names of
  such a list are distinct.
\<close>

datatype 'f pyval =
    PNone
  | PBool bool
  | PInt int
  | PFloat 'f
  | PStr string
  | PObj                                  \<comment> \<open>any other object: an \<open>Attribute\<close>, a function\<close>
  | PDict "(string \<times> 'f pyval) list"

type_synonym 'f pydict = "(string \<times> 'f pyval) list"

record 'f globals =
  g_options :: "'f pydict"
  g_connections :: "'f pydict"
  g_tags :: "'f pydict"

datatype api_error = Since_ValueError | Since_ctime_error

datatype outcome = Success | Failure

definition lower_char :: "char \<Rightarrow> char" where
  "lower_char c =
     (let n = (of_char c :: nat) in if 65 \<le> n \<and> n \<le> 90 then char_of (n + 32) else c)"

definition lower :: "string \<Rightarrow> string" where
  "lower s = map lower_char s"

text \<open>\<open>"k" in queries and queries["k"]\<close>: the query option is present and not empty.\<close>

definition query :: "(string \<rightharpoonup> string) \<Rightarrow> string \<Rightarrow> string option" where
  "query queries k = (case queries k of None \<Rightarrow> None | Some v \<Rightarrow> if v = [] then None else Some v)"

text \<open>A value given on the URL is overridden by the query option of the same name.\<close>

definition override :: "(string \<rightharpoonup> string) \<Rightarrow> string \<Rightarrow> string option \<Rightarrow> string option" where
  "override queries k arg = (case query queries k of Some v \<Rightarrow> Some v | None \<Rightarrow> arg)"

text \<open>\<open>if not group: group = "*"\<close>, for \<open>None\<close> and for the empty string.\<close>

definition or_star :: "string option \<Rightarrow> string" where
  "or_star a = (case a of None \<Rightarrow> ''*'' | Some s \<Rightarrow> if s = [] then ''*'' else s)"

text \<open>\<open>command and command.lower() != "get"\<close>: the request assigns.\<close>

definition is_set_command :: "string option \<Rightarrow> bool" where
  "is_set_command command =
     (case command of None \<Rightarrow> False | Some c \<Rightarrow> c \<noteq> [] \<and> lower c \<noteq> ''get'')"

text \<open>
  \<open>typ( value )\<close> for the type of the current value; \<open>value\<close> is a string or \<open>None\<close>.
  \<open>bool\<close> and \<open>str\<close> convert anything; \<open>int\<close> and \<open>float\<close> raise on \<open>None\<close> and on a
  text that is no number; a dictionary is built from the empty string only; the other
  types raise. \<open>bool\<close> never raises \<open>TypeError\<close>, so the handler of that exception has no
  case of its own here.
\<close>

fun coerce :: "'f pylib \<Rightarrow> 'f pyval \<Rightarrow> string option \<Rightarrow> 'f pyval option" where
  "coerce lib (PBool b) v = Some (PBool (case v of None \<Rightarrow> False | Some s \<Rightarrow> s \<noteq> []))"
| "coerce lib (PInt i) v = (case v of None \<Rightarrow> None | Some s \<Rightarrow> map_option PInt (str_int lib s))"
| "coerce lib (PFloat x) v =
     (case v of None \<Rightarrow> None | Some s \<Rightarrow> map_option PFloat (py_float lib s))"
| "coerce lib (PStr t) v = Some (PStr (case v of None \<Rightarrow> ''None'' | Some s \<Rightarrow> s))"
| "coerce lib (PDict d) v = (if v = Some [] then Some (PDict []) else None)"
| "coerce lib PNone v = None"
| "coerce lib PObj v = None"

text \<open>
  The \<open>try\<close> block that assigns: \<open>getattr( target, command )\<close>, the conversion and
  \<open>setattr( target, command, cvt )\<close>. The command is looked up among the keys of the
  target. Any exception leaves the target as it was.
\<close>

definition assign :: "'f pylib \<Rightarrow> string \<Rightarrow> string option \<Rightarrow> 'f pydict \<Rightarrow> 'f pydict \<times> outcome" where
  "assign lib command value target =
     (case map_of target command of
        None \<Rightarrow> (target, Failure)
      | Some cur \<Rightarrow>
          (case coerce lib cur value of
             None \<Rightarrow> (target, Failure)
           | Some cvt \<Rightarrow> (AList.update command cvt target, Success)))"

text \<open>
  One round of the inner loop, for the entry \<open>mch\<close> of the group \<open>grp\<close>. It gives the
  entry afterwards and the result of the command, if the entry was served.
\<close>

definition serve ::
  "'f pylib \<Rightarrow> string \<Rightarrow> string \<Rightarrow> string option \<Rightarrow> string option \<Rightarrow> string \<Rightarrow>
     string \<times> 'f pyval \<Rightarrow> (string \<times> 'f pyval) \<times> outcome option option" where
  "serve lib group_pat match_pat command value grp e =
     (case e of (mch, target) \<Rightarrow>
        if \<not> fnmatch lib grp group_pat then (e, None)
        else if \<not> fnmatch lib mch match_pat then (e, None)
        else (case target of
                PDict d \<Rightarrow>
                  if d = [] then (e, None)
                  else if is_set_command command then
                    (case assign lib (the command) value d of
                       (d', r) \<Rightarrow> ((mch, PDict d'), Some (Some r)))
                  else (e, Some None)
              | _ \<Rightarrow> (e, None)))"

text \<open>The names that \<open>dir\<close> gives and that do not start with an underscore.\<close>

definition is_public :: "string \<Rightarrow> bool" where
  "is_public m = (case m of [] \<Rightarrow> True | c # cs \<Rightarrow> c \<noteq> CHR ''_'')"

definition serve_group ::
  "'f pylib \<Rightarrow> string \<Rightarrow> string \<Rightarrow> string option \<Rightarrow> string option \<Rightarrow> string \<Rightarrow>
     'f pydict \<Rightarrow> 'f pydict \<times> outcome option option list" where
  "serve_group lib group_pat match_pat command value grp obj =
     (let rs = map (\<lambda>e. if is_public (fst e) then serve lib group_pat match_pat command value grp e
                         else (e, None)) obj
      in (map fst rs, map snd rs))"

text \<open>
  \<open>api_request\<close> from the query options to the end of the loop over the three groups:
  the globals afterwards and \<open>content["command"]\<close>, the result of the last entry served
  (\<open>None\<close> when no entry was served, \<open>Some None\<close> for the empty result of a read).
\<close>

definition last_result :: "outcome option option list \<Rightarrow> outcome option option" where
  "last_result rs = (case filter (\<lambda>r. r \<noteq> None) rs of [] \<Rightarrow> None | xs \<Rightarrow> last xs)"

definition api_request ::
  "'f pylib \<Rightarrow> 'f globals \<Rightarrow> string option \<Rightarrow> string option \<Rightarrow> string option \<Rightarrow> string option \<Rightarrow>
     (string \<rightharpoonup> string) \<Rightarrow> api_error + ('f globals \<times> outcome option option)" where
  "api_request lib g group_arg match_arg command value queries =
     (let group_pat = or_star (override queries ''group'' group_arg);
          match_pat = or_star (override queries ''match'' match_arg);
          command = override queries ''command'' command;
          value = override queries ''value'' value
      in case (case query queries ''since'' of
                 None \<Rightarrow> Inr ()
               | Some s \<Rightarrow> (case py_float lib s of
                              None \<Rightarrow> Inl Since_ValueError
                            | Some t \<Rightarrow> if ctime_ok lib t then Inr () else Inl Since_ctime_error)) of
           Inl e \<Rightarrow> Inl e
         | Inr _ \<Rightarrow>
            (let (o', r1) = serve_group lib group_pat match_pat command value ''options'' (g_options g);
                 (c', r2) = serve_group lib group_pat match_pat command value ''connections'' (g_connections g);
                 (t', r3) = serve_group lib group_pat match_pat command value ''tags'' (g_tags g)
             in Inr (\<lparr> g_options = o', g_connections = c', g_tags = t' \<rparr>,
                     last_result (r1 @ r2 @ r3))))"

text \<open>The globals of a server with one open connection, for the examples.\<close>

definition example_globals :: "bool \<Rightarrow> int globals" where
  "example_globals eof =
     \<lparr> g_options = [(''delay'', PDict [(''value'', PFloat 0)])],
       g_connections =
         [(''10_0_0_1_5000'',
           PDict [(''eof'', PBool eof), (''interface'', PStr ''10.0.0.1''), (''port'', PInt 5000),
                  (''received'', PInt 0), (''requests'', PInt 0)])],
       g_tags = [(''SCADA'', PDict [(''attribute'', PObj), (''error'', PInt 0)])] \<rparr>"

section \<open>The session handler (\<open>enip_srv\<close>)\<close>

subsection \<open>The byte source\<close>

text \<open>
  Modelled from the spec: \<open>cpppo.rememberable\<close>, the byte source of section 4.A, is not
  among the sources. It holds the bytes received and not yet consumed and the count
  \<open>sent\<close> of the bytes given to the parser. Its memory of consumed bytes serves the
  error report only and is left out, so \<open>forget\<close> changes nothing here.
\<close>

type_synonym bytes = string

record source =
  pending :: bytes
  sent :: nat

definition peek :: "source \<Rightarrow> char option" where
  "peek src = (case pending src of [] \<Rightarrow> None | b # bs \<Rightarrow> Some b)"

definition chain :: "bytes \<Rightarrow> source \<Rightarrow> source" where
  "chain msg src = src\<lparr> pending := pending src @ msg \<rparr>"

subsection \<open>The parser and the request processor\<close>

text \<open>
  \<open>parser.enip_machine\<close> is a parameter. \<open>enip_mesg.run\<close> is a generator; the handler acts
  only when it yields the state \<open>None\<close>. \<open>resume\<close> runs the generator from a state of the
  machine up to the next such yield (\<open>Wait\<close>), to its end in a terminal state (\<open>Done\<close>,
  with the request parsed or with no request), or to the exception of a machine that
  ends elsewhere (\<open>NonTerminal\<close>).
\<close>

datatype ('m, 'q) mach_out =
    Wait 'm source
  | Done "'q option" source
  | NonTerminal source

record ('m, 'q) machine =
  start :: 'm
  resume :: "'m \<Rightarrow> source \<Rightarrow> ('m, 'q) mach_out"

text \<open>
  \<open>enip_process\<close> is a parameter too. It returns a true value, and then the encoded
  response is \<open>rpy\<close>, or no response is found (an assertion of the handler fails, or
  \<open>parser.enip_encode\<close> raises); or it returns a false value; or it raises. It may keep a
  state \<open>'p\<close> of its own, the tags for one.
\<close>

datatype proc_out =
    Returns_True "bytes option"
  | Returns_False
  | Raises

type_synonym ('p, 'q) process = "'p \<Rightarrow> 'q option \<Rightarrow> 'p \<times> proc_out"

subsection \<open>The surroundings of a session\<close>

text \<open>
  What the socket, the delay object and the control plane do is given by call number:
  the result of the \<open>k\<close>-th \<open>network.recv\<close> (\<open>None\<close>, bytes, or an exception), whether
  the \<open>k\<close>-th \<open>conn.send\<close> succeeds (it raises \<open>socket.error\<close> otherwise), the delay
  object as it is when the \<open>k\<close>-th reply is ready, and what the control plane has assigned
  to \<open>stats.eof\<close>, if anything, before the \<open>k\<close>-th test of it.
\<close>

datatype recv_result = Recv_None | Recv_Bytes bytes | Recv_Raises

record 'f env =
  recv :: "nat \<Rightarrow> recv_result"
  send_ok :: "nat \<Rightarrow> bool"
  delay_now :: "nat \<Rightarrow> 'f pyval"
  ctl :: "nat \<Rightarrow> bool option"

text \<open>The two timeouts of \<open>network.recv\<close>: \<open>.1\<close> and \<open>0\<close>.\<close>

datatype timeout = Timeout_tenth | Timeout_zero

text \<open>
  What a session does to the outside, in order: a call of \<open>network.recv\<close> with its
  timeout (and the bytes pending in the source at that moment), \<open>time.sleep\<close>, the log
  line of an invalid delay, and \<open>conn.send\<close> with its success.
\<close>

datatype 'f event =
    Ev_recv timeout bytes
  | Ev_sleep 'f
  | Ev_invalid_delay
  | Ev_send bytes bool

record ('p, 'f) session =
  stats_requests :: nat
  stats_received :: nat
  stats_eof :: bool
  stats_interface :: string
  stats_port :: nat
  stats_processed :: "nat option"
  src :: source
  proc_state :: 'p
  local_eof :: bool             \<comment> \<open>the local variable \<open>eof\<close>, which nothing reads\<close>
  recv_count :: nat
  send_count :: nat
  test_count :: nat
  trace :: "'f event list"

text \<open>A test of \<open>stats.eof\<close>, after what the control plane has assigned.\<close>

definition test_eof :: "'f env \<Rightarrow> ('p, 'f) session \<Rightarrow> bool \<times> ('p, 'f) session" where
  "test_eof env s =
     (let e = (case ctl env (test_count s) of None \<Rightarrow> stats_eof s | Some b \<Rightarrow> b)
      in (e, s\<lparr> stats_eof := e, test_count := Suc (test_count s) \<rparr>))"

definition recv_timeout :: "source \<Rightarrow> timeout" where
  "recv_timeout sr = (if peek sr = None then Timeout_tenth else Timeout_zero)"

text \<open>
  The loop \<open>while msg is None and not stats.eof\<close>. An exception is \<open>Inl\<close>, and \<open>None\<close>
  says that the number of rounds allowed was not enough.
\<close>

fun refill :: "'f env \<Rightarrow> nat \<Rightarrow> ('p, 'f) session \<Rightarrow> (('p, 'f) session + ('p, 'f) session) option" where
  "refill env 0 s = None"
| "refill env (Suc n) s =
     (case test_eof env s of (e, s1) \<Rightarrow>
        if e then Some (Inr s1)
        else
          (let s2 = s1\<lparr> trace := trace s1 @ [Ev_recv (recv_timeout (src s1)) (pending (src s1))],
                       recv_count := Suc (recv_count s1) \<rparr>
           in case recv env (recv_count s1) of
                Recv_Bytes msg \<Rightarrow>
                  Some (Inr (s2\<lparr> stats_received := stats_received s2 + length msg,
                                 stats_eof := (stats_eof s2 \<or> msg = []),
                                 src := chain msg (src s2) \<rparr>))
              | Recv_None \<Rightarrow>
                  if peek (src s2) \<noteq> None then Some (Inr s2) else refill env n s2
              | Recv_Raises \<Rightarrow> Some (Inl s2)))"

text \<open>The loop \<open>for mch,sta in enip_mesg.run( ... )\<close>.\<close>

fun drive ::
  "('m, 'q) machine \<Rightarrow> 'f env \<Rightarrow> nat \<Rightarrow> 'm \<Rightarrow> ('p, 'f) session \<Rightarrow>
     (('p, 'f) session + 'q option \<times> ('p, 'f) session) option" where
  "drive mach env 0 m s = None"
| "drive mach env (Suc n) m s =
     (case resume mach m (src s) of
        Wait m' sr \<Rightarrow>
          (case refill env n (s\<lparr> src := sr \<rparr>) of
             None \<Rightarrow> None
           | Some (Inl s') \<Rightarrow> Some (Inl s')
           | Some (Inr s') \<Rightarrow> drive mach env n m' s')
      | Done q sr \<Rightarrow> Some (Inr (q, s\<lparr> src := sr \<rparr>))
      | NonTerminal sr \<Rightarrow> Some (Inl (s\<lparr> src := sr \<rparr>)))"

subsection \<open>The reply and its delay\<close>

text \<open>\<open>if delay:\<close>, the truth value of the delay object.\<close>

fun truthy :: "'f pylib \<Rightarrow> 'f pyval \<Rightarrow> bool" where
  "truthy lib PNone = False"
| "truthy lib (PBool b) = b"
| "truthy lib (PInt i) = (i \<noteq> 0)"
| "truthy lib (PFloat x) = float_nonzero lib x"
| "truthy lib (PStr s) = (s \<noteq> [])"
| "truthy lib PObj = True"
| "truthy lib (PDict d) = (d \<noteq> [])"

text \<open>\<open>float( v )\<close>; \<open>None\<close> stands for \<open>TypeError\<close>, \<open>ValueError\<close> and \<open>OverflowError\<close>.\<close>

fun to_float :: "'f pylib \<Rightarrow> 'f pyval \<Rightarrow> 'f option" where
  "to_float lib (PFloat x) = Some x"
| "to_float lib (PInt i) = int_to_float lib i"
| "to_float lib (PBool b) = int_to_float lib (if b then 1 else 0)"
| "to_float lib (PStr s) = py_float lib s"
| "to_float lib PNone = None"
| "to_float lib PObj = None"
| "to_float lib (PDict d) = None"

text \<open>\<open>float( delay.value if hasattr( delay, 'value' ) else delay )\<close>. An object with
  attributes is a dictionary here.\<close>

definition delay_seconds :: "'f pylib \<Rightarrow> 'f pyval \<Rightarrow> 'f option" where
  "delay_seconds lib delay =
     to_float lib
       (case delay of
          PDict d \<Rightarrow> (case map_of d ''value'' of Some v \<Rightarrow> v | None \<Rightarrow> delay)
        | _ \<Rightarrow> delay)"

text \<open>The events of the delay before a reply: the \<open>if delay:\<close> block with its \<open>try\<close>.\<close>

definition delay_events :: "'f pylib \<Rightarrow> 'f pyval \<Rightarrow> 'f event list" where
  "delay_events lib delay =
     (if truthy lib delay then
        (case delay_seconds lib delay of
           None \<Rightarrow> [Ev_invalid_delay]
         | Some seconds \<Rightarrow> if sleep_ok lib seconds then [Ev_sleep seconds] else [Ev_invalid_delay])
      else [])"

text \<open>
  From the delay to \<open>conn.send( rpy )\<close>. When the send raises \<open>socket.error\<close> the handler
  logs and assigns \<open>eof = True\<close>, a local variable.
\<close>

definition reply :: "'f pylib \<Rightarrow> 'f env \<Rightarrow> bytes \<Rightarrow> ('p, 'f) session \<Rightarrow> ('p, 'f) session" where
  "reply lib env rpy s =
     (let ok = send_ok env (send_count s)
      in s\<lparr> trace := trace s @ delay_events lib (delay_now env (send_count s)) @ [Ev_send rpy ok],
            send_count := Suc (send_count s),
            local_eof := (if ok then local_eof s else True) \<rparr>)"

subsection \<open>The handler loop\<close>

text \<open>
  What follows the parser in one round of the loop: the count of requests, the call of
  \<open>enip_process\<close>, and the reply. The round ends in the next test of the loop
  (\<open>Continue\<close>) or in an exception (\<open>Abort\<close>); in the handler of that exception
  \<open>enip_process\<close> is called once more, with empty data, before it is raised again.
\<close>

datatype 's step = Continue 's | Abort 's

definition respond ::
  "'f pylib \<Rightarrow> ('p, 'q) process \<Rightarrow> 'f env \<Rightarrow> 'q option \<Rightarrow> ('p, 'f) session \<Rightarrow> ('p, 'f) session step" where
  "respond lib proc env q s1 =
     (let s2 = (if q \<noteq> None then s1\<lparr> stats_requests := Suc (stats_requests s1) \<rparr> else s1)
      in case proc (proc_state s2) q of
           (p', Returns_True (Some rpy)) \<Rightarrow> Continue (reply lib env rpy (s2\<lparr> proc_state := p' \<rparr>))
         | (p', Returns_True None) \<Rightarrow> Abort (s2\<lparr> proc_state := fst (proc p' None) \<rparr>)
         | (p', Returns_False) \<Rightarrow> Continue (s2\<lparr> proc_state := p', local_eof := True \<rparr>)
         | (p', Raises) \<Rightarrow> Abort (s2\<lparr> proc_state := fst (proc p' None) \<rparr>))"

text \<open>The loop \<open>while not stats.eof\<close>.\<close>

fun serve_loop ::
  "'f pylib \<Rightarrow> ('m, 'q) machine \<Rightarrow> ('p, 'q) process \<Rightarrow> 'f env \<Rightarrow> nat \<Rightarrow> ('p, 'f) session \<Rightarrow>
     (('p, 'f) session + ('p, 'f) session) option" where
  "serve_loop lib mach proc env 0 s = None"
| "serve_loop lib mach proc env (Suc n) s =
     (case test_eof env s of (e, s0) \<Rightarrow>
        if e then Some (Inr s0)
        else
          (case drive mach env n (start mach) s0 of
             None \<Rightarrow> None
           | Some (Inl s') \<Rightarrow> Some (Inl s')
           | Some (Inr (q, s1)) \<Rightarrow>
               (case respond lib proc env q s1 of
                  Abort s' \<Rightarrow> Some (Inl s')
                | Continue s' \<Rightarrow> serve_loop lib mach proc env n s')))"

text \<open>
  The handler taken up inside a round, where the parser is in the state \<open>m\<close>: the rest
  of the \<open>for\<close> loop, the response, and the rounds after it.
\<close>

definition session_from ::
  "'f pylib \<Rightarrow> ('m, 'q) machine \<Rightarrow> ('p, 'q) process \<Rightarrow> 'f env \<Rightarrow> nat \<Rightarrow> nat \<Rightarrow> 'm \<Rightarrow>
     ('p, 'f) session \<Rightarrow> (('p, 'f) session + ('p, 'f) session) option" where
  "session_from lib mach proc env n k m s =
     (case drive mach env n m s of
        None \<Rightarrow> None
      | Some (Inl s') \<Rightarrow> Some (Inl s')
      | Some (Inr (q, s1)) \<Rightarrow>
          (case respond lib proc env q s1 of
             Abort s' \<Rightarrow> Some (Inl s')
           | Continue s' \<Rightarrow> serve_loop lib mach proc env k s'))"

subsection \<open>The whole session\<close>

text \<open>\<open>"%d" % port\<close> for a port number.\<close>

fun show_nat :: "nat \<Rightarrow> string" where
  "show_nat n =
     (if n < 10 then [char_of (48 + n)] else show_nat (n div 10) @ [char_of (48 + n mod 10)])"

declare show_nat.simps [simp del]

text \<open>\<open>( "%s_%d" % addr ).replace( '.', '_' )\<close>\<close>

definition connkey :: "string \<times> nat \<Rightarrow> string" where
  "connkey addr =
     map (\<lambda>c. if c = CHR ''.'' then CHR ''_'' else c) (fst addr @ ''_'' @ show_nat (snd addr))"

datatype ending = Finished | Raised

text \<open>
  The global \<open>connections\<close> maps a key to a stats object. The stats object of a session
  lives in the record of that session, and the map holds the peer address that the
  object belongs to. \<open>register\<close> is the start of \<open>enip_srv\<close>: the fresh stats object goes
  into the map and its counters are set. The assertion that an \<open>enip_process\<close> is given
  is taken to hold.
\<close>

type_synonym connections = "string \<rightharpoonup> string \<times> nat"

definition register ::
  "connections \<Rightarrow> string \<times> nat \<Rightarrow> 'p \<Rightarrow> connections \<times> ('p, 'f) session" where
  "register connections addr p0 =
     (connections(connkey addr \<mapsto> addr),
      \<lparr> stats_requests = 0, stats_received = 0, stats_eof = False,
        stats_interface = fst addr, stats_port = snd addr, stats_processed = None,
        src = \<lparr> pending = [], sent = 0 \<rparr>, proc_state = p0, local_eof = False,
        recv_count = 0, send_count = 0, test_count = 0, trace = [] \<rparr>)"

text \<open>
  The session: after the loop \<open>stats.processed\<close> is stored, in the handler of an
  exception as well, and the \<open>finally\<close> block takes the key out of the map.
\<close>

definition enip_srv ::
  "'f pylib \<Rightarrow> ('m, 'q) machine \<Rightarrow> ('p, 'q) process \<Rightarrow> 'f env \<Rightarrow> nat \<Rightarrow>
     connections \<Rightarrow> string \<times> nat \<Rightarrow> 'p \<Rightarrow> (ending \<times> ('p, 'f) session \<times> connections) option" where
  "enip_srv lib mach proc env fuel connections addr p0 =
     (case register connections addr p0 of (connections1, s0) \<Rightarrow>
        (case serve_loop lib mach proc env fuel s0 of
           None \<Rightarrow> None
         | Some (Inr s) \<Rightarrow>
             Some (Finished, s\<lparr> stats_processed := Some (sent (src s)) \<rparr>,
                   connections1(connkey addr := None))
         | Some (Inl s) \<Rightarrow>
             Some (Raised, s\<lparr> stats_processed := Some (sent (src s)) \<rparr>,
                   connections1(connkey addr := None))))"

subsection \<open>A parser and a processor for the examples\<close>

text \<open>
  Modelled from the spec: \<open>parser.enip_machine\<close> is not among the sources. By sections
  4.B and 6 a frame is a header of 24 bytes, whose bytes 2 and 3 give the length of the
  payload (little-endian), and the payload. Partial input suspends the parser; the end
  of input with no byte consumed ends the session silently, and the end of input in the
  middle of a frame is a fatal parse error. The state of this machine is the part of
  the frame consumed so far and whether it has already asked for input.
\<close>

definition frame_size :: "bytes \<Rightarrow> nat option" where
  "frame_size buf =
     (if length buf < 24 then None
      else Some (24 + of_char (buf ! 2) + 256 * of_char (buf ! 3)))"

definition frame_resume :: "bytes \<times> bool \<Rightarrow> source \<Rightarrow> (bytes \<times> bool, bytes) mach_out" where
  "frame_resume m sr =
     (case m of (acc, waited) \<Rightarrow>
        (let buf = acc @ pending sr;
             complete = (case frame_size buf of None \<Rightarrow> None
                         | Some n \<Rightarrow> if n \<le> length buf then Some n else None)
         in case complete of
              Some n \<Rightarrow>
                Done (Some (take n buf))
                     (sr\<lparr> pending := drop n buf, sent := sent sr + (n - length acc) \<rparr>)
            | None \<Rightarrow>
                if pending sr = [] \<and> waited then
                  (if acc = [] then Done None sr else NonTerminal sr)
                else Wait (buf, True)
                          (sr\<lparr> pending := [], sent := sent sr + length (pending sr) \<rparr>)))"

definition frame_machine :: "(bytes \<times> bool, bytes) machine" where
  "frame_machine = \<lparr> start = ([], False), resume = frame_resume \<rparr>"

text \<open>
  Modelled from the spec: \<open>logix.process\<close> is not among the sources. By section 4.G
  UnRegisterSession (command \<open>0x0066\<close>) and the end of input get no reply, and the other
  commands get one. The reply of this processor is the frame of the request; what a
  reply holds plays no role in what follows.
\<close>

definition example_process :: "(unit, bytes) process" where
  "example_process p q =
     (case q of
        None \<Rightarrow> (p, Returns_False)
      | Some frame \<Rightarrow>
          if take 2 frame = [CHR 0x66, CHR 0x00] then (p, Returns_False)
          else (p, Returns_True (Some frame)))"

definition unregister_frame :: bytes where
  "unregister_frame = CHR 0x66 # replicate 23 (CHR 0x00)"

definition list_services_frame :: bytes where
  "list_services_frame = CHR 0x04 # replicate 23 (CHR 0x00)"

text \<open>
  Surroundings for the examples: the bytes of \<open>msgs\<close> arrive one message per call of
  \<open>network.recv\<close> and then the peer closes; the sends listed in \<open>failing\<close> raise; the
  delay object is \<open>d\<close> throughout; the control plane assigns what \<open>c\<close> says.
\<close>

definition example_env ::
  "bytes list \<Rightarrow> nat list \<Rightarrow> int pyval \<Rightarrow> (nat \<Rightarrow> bool option) \<Rightarrow> int env" where
  "example_env msgs failing d c =
     \<lparr> recv = (\<lambda>k. if k < length msgs then Recv_Bytes (msgs ! k) else Recv_Bytes []),
       send_ok = (\<lambda>k. k \<notin> set failing),
       delay_now = (\<lambda>k. d),
       ctl = c \<rparr>"

text \<open>What one sees of a session that has ended: how it ended, what it did, how many
  requests it counted, and whether its key is still in the map.\<close>

definition observe ::
  "(ending \<times> ('p, 'f) session \<times> connections) option \<Rightarrow> string \<Rightarrow>
     (ending \<times> 'f event list \<times> nat \<times> bool) option" where
  "observe r key =
     (case r of None \<Rightarrow> None
      | Some (e, s, c) \<Rightarrow> Some (e, trace s, stats_requests s, c key \<noteq> None))"

subsection \<open>Words of the specification about the handler\<close>


text \<open>A control plane that assigns nothing.\<close>

definition no_control :: "nat \<Rightarrow> bool option" where
  "no_control k = None"



text \<open>A control plane that assigns \<open>True\<close> to \<open>stats.eof\<close> before the test number \<open>j\<close>.\<close>

definition set_eof_at :: "nat \<Rightarrow> nat \<Rightarrow> bool option" where
  "set_eof_at j k = (if k = j then Some True else None)"

text \<open>The session at the end of a loop, however it ended.\<close>

definition final :: "('p, 'f) session + ('p, 'f) session \<Rightarrow> ('p, 'f) session" where
  "final r = (case r of Inl a \<Rightarrow> a | Inr a \<Rightarrow> a)"
section \<open>Properties of the tag specifications\<close>

lemma split1_app: "c \<notin> set a \<Longrightarrow> split1 c (a @ c # b) = (a, b)"
  by (simp add: split1_def takeWhile_tail dropWhile_append)

lemma split1_mem: "c \<in> set s \<Longrightarrow> split1 c s = (a, b) \<Longrightarrow> s = a @ c # b \<and> c \<notin> set a"
proof (induction s arbitrary: a)
  case Nil then show ?case by simp
next
  case (Cons x s)
  show ?case
  proof (cases "x = c")
    case True with Cons.prems show ?thesis by (simp add: split1_def)
  next
    case False
    with Cons.prems have m: "c \<in> set s" by auto
    from False Cons.prems obtain a' where a: "a = x # a'" and s: "split1 c s = (a', b)"
      by (auto simp: split1_def)
    from Cons.IH[OF m s] a False show ?thesis by auto
  qed
qed

lemma parse_tag_plain:
  "CHR ''='' \<notin> set t \<Longrightarrow>
     parse_tag lib t =
       (case typenames (str_upper lib ''INT'') of
          None \<Rightarrow> Inl Invalid_tag_type | Some ty \<Rightarrow> Inr (t, ty, 1))"
  by (simp add: parse_tag_def)

lemma parse_tag_empty_type:
  "CHR ''='' \<notin> set n \<Longrightarrow>
     parse_tag lib (n @ ''='') =
       (case typenames (str_upper lib ''INT'') of
          None \<Rightarrow> Inl Invalid_tag_type | Some ty \<Rightarrow> Inr (n, ty, 1))"
  by (simp add: parse_tag_def split1_app)

lemma parse_tag_typed:
  assumes "CHR ''='' \<notin> set n" "T \<noteq> []" "CHR ''['' \<notin> set T"
  shows "parse_tag lib (n @ ''='' @ T) =
           (case typenames (str_upper lib T) of
              None \<Rightarrow> Inl Invalid_tag_type | Some ty \<Rightarrow> Inr (n, ty, 1))"
  using assms by (simp add: parse_tag_def split1_app)

lemma parse_tag_bracket:
  assumes "CHR ''='' \<notin> set n" "CHR ''['' \<notin> set T"
  shows "parse_tag lib (n @ ''='' @ T @ ''['' @ R) =
           (if CHR '']'' \<notin> set R then Inl Mismatched_brackets
            else let (S, X) = split1 (CHR '']'') R
                 in if X \<noteq> [] then Inl Unexpected_rest
                    else case typenames (str_upper lib T) of
                           None \<Rightarrow> Inl Invalid_tag_type
                         | Some ty \<Rightarrow> (case str_int lib S of
                                         None \<Rightarrow> Inl Invalid_tag_size
                                       | Some k \<Rightarrow> Inr (n, ty, k)))"
  using assms by (simp add: parse_tag_def split1_app)

lemma parse_tag_sized:
  assumes "CHR ''='' \<notin> set n" "CHR ''['' \<notin> set T" "CHR '']'' \<notin> set S"
  shows "parse_tag lib (n @ ''='' @ T @ ''['' @ S @ '']'') =
           (case typenames (str_upper lib T) of
              None \<Rightarrow> Inl Invalid_tag_type
            | Some ty \<Rightarrow> (case str_int lib S of
                            None \<Rightarrow> Inl Invalid_tag_size
                          | Some k \<Rightarrow> Inr (n, ty, k)))"
  using assms parse_tag_bracket[OF assms(1,2), of lib "S @ '']''"]
  by (simp add: split1_app)

lemma parse_tag_forms:
  "(CHR ''='' \<notin> set t) \<or>
   (\<exists>n. CHR ''='' \<notin> set n \<and> t = n @ ''='') \<or>
   (\<exists>n T. CHR ''='' \<notin> set n \<and> T \<noteq> [] \<and> CHR ''['' \<notin> set T \<and> t = n @ ''='' @ T) \<or>
   (\<exists>n T R. CHR ''='' \<notin> set n \<and> CHR ''['' \<notin> set T \<and> t = n @ ''='' @ T @ ''['' @ R)"
proof (cases "CHR ''='' \<in> set t")
  case False then show ?thesis by simp
next
  case True
  obtain n r where s: "split1 (CHR ''='') t = (n, r)" by (cases "split1 (CHR ''='') t")
  from split1_mem[OF True s] have t: "t = n @ ''='' @ r" and n: "CHR ''='' \<notin> set n" by auto
  show ?thesis
  proof (cases "CHR ''['' \<in> set r")
    case False
    with t n show ?thesis by (cases "r = []") auto
  next
    case b: True
    obtain T R where s2: "split1 (CHR ''['') r = (T, R)" by (cases "split1 (CHR ''['') r")
    from split1_mem[OF b s2] have "r = T @ ''['' @ R" "CHR ''['' \<notin> set T" by auto
    with t n show ?thesis by blast
  qed
qed

lemma parse_tag_grammar:
  "parse_tag lib t = Inr (n, ty, sz) \<longleftrightarrow>
     (CHR ''='' \<notin> set t \<and> n = t \<and> typenames (str_upper lib ''INT'') = Some ty \<and> sz = 1) \<or>
     (CHR ''='' \<notin> set n \<and> t = n @ ''='' \<and> typenames (str_upper lib ''INT'') = Some ty \<and> sz = 1) \<or>
     (\<exists>T. CHR ''='' \<notin> set n \<and> T \<noteq> [] \<and> CHR ''['' \<notin> set T \<and> t = n @ ''='' @ T \<and>
          typenames (str_upper lib T) = Some ty \<and> sz = 1) \<or>
     (\<exists>T S. CHR ''='' \<notin> set n \<and> CHR ''['' \<notin> set T \<and> CHR '']'' \<notin> set S \<and>
          t = n @ ''='' @ T @ ''['' @ S @ '']'' \<and>
          typenames (str_upper lib T) = Some ty \<and> str_int lib S = Some sz)"
  (is "?L \<longleftrightarrow> ?A \<or> ?B \<or> ?C \<or> ?D")
proof
  assume r: "?A \<or> ?B \<or> ?C \<or> ?D"
  then consider (a) ?A | (b) ?B | (c) ?C | (d) ?D by blast
  then show ?L
  proof cases
    case a then show ?thesis by (simp add: parse_tag_plain)
  next
    case b then show ?thesis by (simp add: parse_tag_empty_type)
  next
    case c
    then obtain T where "CHR ''='' \<notin> set n" "T \<noteq> []" "CHR ''['' \<notin> set T" "t = n @ ''='' @ T"
          "typenames (str_upper lib T) = Some ty" "sz = 1" by blast
    then show ?thesis using parse_tag_typed[of n T lib] by simp
  next
    case d
    then obtain T S where "CHR ''='' \<notin> set n" "CHR ''['' \<notin> set T" "CHR '']'' \<notin> set S"
          "t = n @ ''='' @ T @ ''['' @ S @ '']''"
          "typenames (str_upper lib T) = Some ty" "str_int lib S = Some sz" by blast
    then show ?thesis using parse_tag_sized[of n T S lib] by simp
  qed
next
  assume l: ?L
  from parse_tag_forms[of t] consider
      (a) "CHR ''='' \<notin> set t"
    | (b) m where "CHR ''='' \<notin> set m" "t = m @ ''=''"
    | (c) m T where "CHR ''='' \<notin> set m" "T \<noteq> []" "CHR ''['' \<notin> set T" "t = m @ ''='' @ T"
    | (d) m T R where "CHR ''='' \<notin> set m" "CHR ''['' \<notin> set T" "t = m @ ''='' @ T @ ''['' @ R"
    by blast
  then show "?A \<or> ?B \<or> ?C \<or> ?D"
  proof cases
    case a with l show ?thesis by (auto simp: parse_tag_plain split: option.splits)
  next
    case b with l show ?thesis by (auto simp: parse_tag_empty_type split: option.splits)
  next
    case c
    with l parse_tag_typed[OF c(1,2,3), of lib]
    have "m = n" "typenames (str_upper lib T) = Some ty" "sz = 1"
      by (auto split: option.splits)
    with c have ?C by blast
    then show ?thesis by blast
  next
    case d
    from l d(3) parse_tag_bracket[OF d(1,2), of lib R]
    have br: "CHR '']'' \<in> set R" by (auto split: if_splits)
    obtain S X where s: "split1 (CHR '']'') R = (S, X)" by (cases "split1 (CHR '']'') R")
    from split1_mem[OF br s] have R: "R = S @ '']'' @ X" and S: "CHR '']'' \<notin> set S" by auto
    from l d(3) parse_tag_bracket[OF d(1,2), of lib R] br s
    have "X = []" "m = n" "typenames (str_upper lib T) = Some ty" "str_int lib S = Some sz"
      by (auto split: if_splits option.splits)
    with d R S have ?D by auto
    then show ?thesis by blast
  qed
qed

lemma define_tags_accepts:
  "(\<exists>tags'. define_tags lib tags ts = Inr tags') \<longleftrightarrow> (\<forall>t \<in> set ts. \<not> isl (parse_tag lib t))"
proof (induction ts arbitrary: tags)
  case Nil show ?case by simp
next
  case (Cons t ts)
  show ?case
  proof (cases "parse_tag lib t")
    case (Inl e) then show ?thesis by simp
  next
    case (Inr r)
    obtain n ty sz where r: "r = (n, ty, sz)" by (cases r)
    from Inr r show ?thesis by (simp add: Cons.IH)
  qed
qed

lemma main_tags_accepts:
  "\<not> isl (main_tags lib ts) \<longleftrightarrow> ts \<noteq> [] \<and> (\<forall>t \<in> set ts. \<not> isl (parse_tag lib t))"
proof -
  have "\<not> isl (define_tags lib Map.empty ts) \<longleftrightarrow> (\<exists>tags'. define_tags lib Map.empty ts = Inr tags')"
    by (cases "define_tags lib Map.empty ts") auto
  then show ?thesis using define_tags_accepts[of lib Map.empty ts] by (simp add: main_tags_def)
qed

lemma define_tags_created:
  "define_tags lib tags ts = Inr tags' \<Longrightarrow> tags' n = Some tg \<Longrightarrow>
     tags n = Some tg \<or>
     (\<exists>t \<in> set ts. \<exists>ty sz. parse_tag lib t = Inr (n, ty, sz) \<and> tg = make_tag n ty sz)"
proof (induction ts arbitrary: tags)
  case Nil then show ?case by simp
next
  case (Cons t ts)
  show ?case
  proof (cases "parse_tag lib t")
    case (Inl e) with Cons.prems show ?thesis by simp
  next
    case (Inr r)
    obtain m ty sz where r: "r = (m, ty, sz)" by (cases r)
    from Cons.prems Inr r
    have d: "define_tags lib (tags(m \<mapsto> make_tag m ty sz)) ts = Inr tags'" by simp
    from Cons.IH[OF d Cons.prems(2)] Inr r show ?thesis
      by (auto split: if_splits)
  qed
qed

lemma define_tags_keeps:
  "define_tags lib tags ts = Inr tags' \<Longrightarrow> tags n \<noteq> None \<Longrightarrow> tags' n \<noteq> None"
proof (induction ts arbitrary: tags)
  case Nil then show ?case by simp
next
  case (Cons t ts)
  show ?case
  proof (cases "parse_tag lib t")
    case (Inl e) with Cons.prems show ?thesis by simp
  next
    case (Inr r)
    obtain m ty sz where r: "r = (m, ty, sz)" by (cases r)
    from Cons.prems Inr r
    have d: "define_tags lib (tags(m \<mapsto> make_tag m ty sz)) ts = Inr tags'" by simp
    from Cons.prems(2) have "(tags(m \<mapsto> make_tag m ty sz)) n \<noteq> None" by simp
    from Cons.IH[OF d this] show ?thesis .
  qed
qed

lemma define_tags_stores:
  "define_tags lib tags ts = Inr tags' \<Longrightarrow> t \<in> set ts \<Longrightarrow>
     \<exists>n ty sz. parse_tag lib t = Inr (n, ty, sz) \<and> tags' n \<noteq> None"
proof (induction ts arbitrary: tags)
  case Nil then show ?case by simp
next
  case (Cons u ts)
  show ?case
  proof (cases "parse_tag lib u")
    case (Inl e) with Cons.prems show ?thesis by simp
  next
    case (Inr r)
    obtain m ty sz where r: "r = (m, ty, sz)" by (cases r)
    from Cons.prems Inr r
    have d: "define_tags lib (tags(m \<mapsto> make_tag m ty sz)) ts = Inr tags'" by simp
    show ?thesis
    proof (cases "t \<in> set ts")
      case True from Cons.IH[OF d True] show ?thesis .
    next
      case False
      with Cons.prems(2) have tu: "t = u" by simp
      have "(tags(m \<mapsto> make_tag m ty sz)) m \<noteq> None" by simp
      from define_tags_keeps[OF d this] Inr r tu show ?thesis by auto
    qed
  qed
qed

lemma define_tags_last:
  "define_tags lib tags (ts @ [t]) = Inr tags' \<Longrightarrow> parse_tag lib t = Inr (n, ty, sz) \<Longrightarrow>
     tags' n = Some (make_tag n ty sz)"
proof (induction ts arbitrary: tags)
  case Nil then show ?case by auto
next
  case (Cons u ts)
  show ?case
  proof (cases "parse_tag lib u")
    case (Inl e) with Cons.prems show ?thesis by simp
  next
    case (Inr r)
    obtain m ty' sz' where r: "r = (m, ty', sz')" by (cases r)
    from Cons.prems Inr r
    have d: "define_tags lib (tags(m \<mapsto> make_tag m ty' sz')) (ts @ [t]) = Inr tags'" by simp
    from Cons.IH[OF d Cons.prems(2)] show ?thesis .
  qed
qed

text \<open>
  Claim C7, as amended. \<open>main\<close> accepts a non-empty list of tag specifications, each of
  the form \<open>NAME\<close>, \<open>NAME=\<close>, \<open>NAME=TYPE\<close> or \<open>NAME=TYPE[SIZE]\<close>, where \<open>NAME\<close> holds no
  \<open>=\<close>, \<open>TYPE\<close> holds no \<open>[\<close> and is, after \<open>str.upper\<close>, one of \<open>INT\<close>, \<open>DINT\<close> and
  \<open>SINT\<close>, and \<open>SIZE\<close> holds no \<open>]\<close> and is any text that \<open>int\<close> converts (zero and
  negative numbers too). A type left out is the text \<open>INT\<close> and a size left out is \<open>1\<close>.
  Every other specification is rejected: it has an unknown type, a missing closing
  bracket, text after the closing bracket or a size that \<open>int\<close> refuses.
\<close>

theorem main_tag_grammar:
  "(\<not> isl (main_tags lib ts) \<longleftrightarrow> ts \<noteq> [] \<and> (\<forall>t \<in> set ts. \<not> isl (parse_tag lib t))) \<and>
   (parse_tag lib t = Inr (n, ty, sz) \<longleftrightarrow>
     (CHR ''='' \<notin> set t \<and> n = t \<and> typenames (str_upper lib ''INT'') = Some ty \<and> sz = 1) \<or>
     (CHR ''='' \<notin> set n \<and> t = n @ ''='' \<and> typenames (str_upper lib ''INT'') = Some ty \<and> sz = 1) \<or>
     (\<exists>T. CHR ''='' \<notin> set n \<and> T \<noteq> [] \<and> CHR ''['' \<notin> set T \<and> t = n @ ''='' @ T \<and>
          typenames (str_upper lib T) = Some ty \<and> sz = 1) \<or>
     (\<exists>T S. CHR ''='' \<notin> set n \<and> CHR ''['' \<notin> set T \<and> CHR '']'' \<notin> set S \<and>
          t = n @ ''='' @ T @ ''['' @ S @ '']'' \<and>
          typenames (str_upper lib T) = Some ty \<and> str_int lib S = Some sz))"
  using main_tags_accepts [of lib ts] parse_tag_grammar [of lib t n ty sz] by blast

theorem main_tag_grammar_witness:
  "\<not> isl (main_tags example_lib [''SCADA=INT[1000]'', ''flag=sint'', ''X''])"
proof -
  have "\<forall>t \<in> set [''SCADA=INT[1000]'', ''flag=sint'', ''X'']. \<not> isl (parse_tag example_lib t)"
    by code_simp
  then show ?thesis
    using main_tag_grammar [of example_lib "[''SCADA=INT[1000]'', ''flag=sint'', ''X'']"] by simp
qed

text \<open>
  The claim C7 as the specification states it fails: a size below one is not rejected.
  \<open>A=INT[0]\<close> is accepted with size zero.
\<close>

theorem tag_size_zero_accepted:
  "parse_tag example_lib ''A=INT[0]'' = Inr (''A'', CIP_INT, 0) \<and>
   \<not> isl (main_tags example_lib [''A=INT[0]''])"
  by code_simp

text \<open>
  Claim C10, as amended. When \<open>main\<close> has accepted the specifications, every one of them
  has a tag under its name, the last specification having the tag that it asks for;
  and every tag comes from a specification of its name, its error code is \<open>0\<close>, and the
  default value of its attribute is the scalar \<open>0\<close> when the size is one and otherwise
  the list of \<open>SIZE\<close> zeros for a size that is not negative, the empty list for a
  negative size.
\<close>

theorem created_tag_initial_state:
  assumes "main_tags lib ts = Inr tags"
  shows "(\<forall>t \<in> set ts. \<exists>n ty sz. parse_tag lib t = Inr (n, ty, sz) \<and> tags n \<noteq> None) \<and>
         (\<forall>us t n ty sz. ts = us @ [t] \<and> parse_tag lib t = Inr (n, ty, sz) \<longrightarrow>
            tags n = Some (make_tag n ty sz)) \<and>
         (\<forall>n tg. tags n = Some tg \<longrightarrow>
            tag_error tg = 0 \<and>
            (\<exists>t \<in> set ts. \<exists>ty sz. parse_tag lib t = Inr (n, ty, sz) \<and>
               attr_name (tag_attribute tg) = n \<and> attr_type (tag_attribute tg) = ty \<and>
               attr_default (tag_attribute tg) =
                 (if sz = 1 then Scalar 0 else Array (replicate (nat sz) 0)) \<and>
               (0 \<le> sz \<longrightarrow> zeros_of_size sz (attr_default (tag_attribute tg)))))"
proof -
  from assms have d: "define_tags lib Map.empty ts = Inr tags"
    by (simp add: main_tags_def split: if_splits)
  have one: "\<exists>n ty sz. parse_tag lib t = Inr (n, ty, sz) \<and> tags n \<noteq> None" if "t \<in> set ts" for t
    using define_tags_stores[OF d that] .
  have two: "tags n = Some (make_tag n ty sz)"
    if "ts = us @ [t]" "parse_tag lib t = Inr (n, ty, sz)" for us t n ty sz
    using define_tags_last[of lib Map.empty us t tags n ty sz] d that by simp
  have three: "tag_error tg = 0 \<and>
            (\<exists>t \<in> set ts. \<exists>ty sz. parse_tag lib t = Inr (n, ty, sz) \<and>
               attr_name (tag_attribute tg) = n \<and> attr_type (tag_attribute tg) = ty \<and>
               attr_default (tag_attribute tg) =
                 (if sz = 1 then Scalar 0 else Array (replicate (nat sz) 0)) \<and>
               (0 \<le> sz \<longrightarrow> zeros_of_size sz (attr_default (tag_attribute tg))))"
    if l: "tags n = Some tg" for n tg
  proof -
    from define_tags_created[OF d l]
    obtain t ty sz where t: "t \<in> set ts" and p: "parse_tag lib t = Inr (n, ty, sz)"
      and tg: "tg = make_tag n ty sz"
      by auto
    have z: "0 \<le> sz \<longrightarrow> zeros_of_size sz (default_value sz)"
      by (simp add: zeros_of_size_def default_value_def list_all_iff)
    have e: "tag_error tg = 0" "attr_name (tag_attribute tg) = n" "attr_type (tag_attribute tg) = ty"
      "attr_default (tag_attribute tg) = default_value sz"
      by (simp_all add: tg make_tag_def)
    have "parse_tag lib t = Inr (n, ty, sz) \<and>
               attr_name (tag_attribute tg) = n \<and> attr_type (tag_attribute tg) = ty \<and>
               attr_default (tag_attribute tg) =
                 (if sz = 1 then Scalar 0 else Array (replicate (nat sz) 0)) \<and>
               (0 \<le> sz \<longrightarrow> zeros_of_size sz (attr_default (tag_attribute tg)))"
      using p e z by (simp add: default_value_def)
    then have "\<exists>ty sz. parse_tag lib t = Inr (n, ty, sz) \<and>
               attr_name (tag_attribute tg) = n \<and> attr_type (tag_attribute tg) = ty \<and>
               attr_default (tag_attribute tg) =
                 (if sz = 1 then Scalar 0 else Array (replicate (nat sz) 0)) \<and>
               (0 \<le> sz \<longrightarrow> zeros_of_size sz (attr_default (tag_attribute tg)))"
      by (intro exI)
    with t e(1) show ?thesis by (intro conjI bexI)
  qed
  show ?thesis
  proof (intro conjI)
    show "\<forall>t \<in> set ts. \<exists>n ty sz. parse_tag lib t = Inr (n, ty, sz) \<and> tags n \<noteq> None"
      by (intro ballI) (rule one)
    show "\<forall>us t n ty sz. ts = us @ [t] \<and> parse_tag lib t = Inr (n, ty, sz) \<longrightarrow>
            tags n = Some (make_tag n ty sz)"
      by (intro allI impI, elim conjE) (rule two)
    show "\<forall>n tg. tags n = Some tg \<longrightarrow>
            tag_error tg = 0 \<and>
            (\<exists>t \<in> set ts. \<exists>ty sz. parse_tag lib t = Inr (n, ty, sz) \<and>
               attr_name (tag_attribute tg) = n \<and> attr_type (tag_attribute tg) = ty \<and>
               attr_default (tag_attribute tg) =
                 (if sz = 1 then Scalar 0 else Array (replicate (nat sz) 0)) \<and>
               (0 \<le> sz \<longrightarrow> zeros_of_size sz (attr_default (tag_attribute tg))))"
      by (intro allI impI) (rule three)
  qed
qed

theorem created_tag_initial_state_witness:
  "main_tags example_lib [''A'', ''B=DINT[3]''] =
     Inr [''A'' \<mapsto> make_tag ''A'' CIP_INT 1, ''B'' \<mapsto> make_tag ''B'' CIP_DINT 3] \<and>
   [''A'' \<mapsto> make_tag ''A'' CIP_INT 1, ''B'' \<mapsto> make_tag ''B'' CIP_DINT 3] ''B''
     = Some (make_tag ''B'' CIP_DINT 3) \<and>
   tag_error (make_tag ''B'' CIP_DINT 3) = 0"
proof -
  let ?tags = "[''A'' \<mapsto> make_tag ''A'' CIP_INT 1, ''B'' \<mapsto> make_tag ''B'' CIP_DINT 3]"
  have p1: "parse_tag example_lib ''A'' = Inr (''A'', CIP_INT, 1)" by code_simp
  have p2: "parse_tag example_lib ''B=DINT[3]'' = Inr (''B'', CIP_DINT, 3)" by code_simp
  have m: "main_tags example_lib [''A'', ''B=DINT[3]''] = Inr ?tags"
    by (simp add: main_tags_def p1 p2)
  note w = created_tag_initial_state [OF m]
  have c: "[''A'', ''B=DINT[3]''] = [''A''] @ [''B=DINT[3]''] \<and>
           parse_tag example_lib ''B=DINT[3]'' = Inr (''B'', CIP_DINT, 3)"
    using p2 by simp
  from w have "\<forall>us t n ty sz. [''A'', ''B=DINT[3]''] = us @ [t] \<and>
                 parse_tag example_lib t = Inr (n, ty, sz) \<longrightarrow> ?tags n = Some (make_tag n ty sz)"
    by (rule conjunct2 [THEN conjunct1])
  then have b: "?tags ''B'' = Some (make_tag ''B'' CIP_DINT 3)"
    using c by (elim allE impE) assumption+
  from w have "\<forall>n tg. ?tags n = Some tg \<longrightarrow> tag_error tg = 0 \<and>
            (\<exists>t \<in> set [''A'', ''B=DINT[3]'']. \<exists>ty sz. parse_tag example_lib t = Inr (n, ty, sz) \<and>
               attr_name (tag_attribute tg) = n \<and> attr_type (tag_attribute tg) = ty \<and>
               attr_default (tag_attribute tg) =
                 (if sz = 1 then Scalar 0 else Array (replicate (nat sz) 0)) \<and>
               (0 \<le> sz \<longrightarrow> zeros_of_size sz (attr_default (tag_attribute tg))))"
    by (rule conjunct2 [THEN conjunct2])
  then have "tag_error (make_tag ''B'' CIP_DINT 3) = 0"
    using b by (elim allE impE conjE) assumption+
  with m b show ?thesis by (intro conjI)
qed

text \<open>
  The claim C10 as it is stated fails for a negative size, which \<open>main\<close> accepts:
  the tag of \<open>A=INT[-3]\<close> has the empty list as its default value, and the empty list is
  not a list of \<open>-3\<close> zeros.
\<close>

theorem negative_size_default_is_empty:
  "parse_tag example_lib ''A=INT[-3]'' = Inr (''A'', CIP_INT, - 3) \<and>
   created_default (main_tags example_lib [''A=INT[-3]'']) ''A'' = Some (Array []) \<and>
   \<not> zeros_of_size (- 3) (Array [])"
proof -
  have p: "parse_tag example_lib ''A=INT[-3]'' = Inr (''A'', CIP_INT, - 3)" by code_simp
  then show ?thesis
    by (simp add: main_tags_def created_default_def make_tag_def default_value_def
          zeros_of_size_def)
qed


section \<open>Properties of the control plane\<close>

lemma serve_read:
  "\<not> is_set_command command \<Longrightarrow> fst (serve lib gp mp command value grp e) = e"
  by (auto simp: serve_def split: prod.splits pyval.splits)

lemma serve_read_result:
  "\<not> is_set_command command \<Longrightarrow> snd (serve lib gp mp command value grp e) \<in> {None, Some None}"
  by (auto simp: serve_def split: prod.splits pyval.splits)

lemma serve_group_read:
  assumes "\<not> is_set_command command"
  shows "fst (serve_group lib gp mp command value grp obj) = obj"
proof -
  have "map (\<lambda>e. fst (if is_public (fst e) then serve lib gp mp command value grp e else (e, None))) obj
          = map (\<lambda>e. e) obj"
    by (rule map_cong) (use assms in \<open>auto simp: serve_read\<close>)
  then show ?thesis by (simp add: serve_group_def Let_def comp_def)
qed

lemma serve_group_read_result:
  assumes "\<not> is_set_command command"
  shows "set (snd (serve_group lib gp mp command val grp obj)) \<subseteq> {None, Some None}"
proof
  fix r assume "r \<in> set (snd (serve_group lib gp mp command val grp obj))"
  then obtain e where
    "r = snd (if is_public (fst e) then serve lib gp mp command val grp e else (e, None))"
    by (auto simp: serve_group_def Let_def)
  then show "r \<in> {None, Some None}"
    using serve_read_result[OF assms, of lib gp mp val grp e] by (cases "is_public (fst e)") auto
qed

lemma last_result_read:
  assumes "set rs \<subseteq> {None, Some None}"
  shows "last_result rs \<in> {None, Some None}"
proof (cases "filter (\<lambda>r. r \<noteq> None) rs")
  case Nil then show ?thesis by (simp add: last_result_def)
next
  case (Cons x xs)
  then have "last (x # xs) \<in> set (filter (\<lambda>r. r \<noteq> None) rs)"
    by (metis last_in_set list.distinct(1))
  then have "last (x # xs) \<in> set rs" by simp
  with assms have "last (x # xs) \<in> {None, Some None}" by blast
  with Cons show ?thesis by (simp add: last_result_def)
qed

text \<open>
  Claim C9, as amended. When the command in effect (the query option \<open>command\<close> if it is
  given and not empty, the argument \<open>command\<close> otherwise) is missing, empty or \<open>get\<close> in any
  case of letters, \<open>api_request\<close> assigns nothing: the three dictionaries are afterwards
  what they were, and no command result is a success or a failure.
\<close>

theorem api_request_get_assigns_nothing:
  assumes "\<not> is_set_command (override queries ''command'' command)"
    and "api_request lib g group_arg match_arg command value queries = Inr (g', r)"
  shows "g' = g \<and> r \<in> {None, Some None}"
proof -
  let ?c = "override queries ''command'' command"
  let ?v = "override queries ''value'' value"
  let ?gp = "or_star (override queries ''group'' group_arg)"
  let ?mp = "or_star (override queries ''match'' match_arg)"
  let ?o = "serve_group lib ?gp ?mp ?c ?v ''options'' (g_options g)"
  let ?n = "serve_group lib ?gp ?mp ?c ?v ''connections'' (g_connections g)"
  let ?t = "serve_group lib ?gp ?mp ?c ?v ''tags'' (g_tags g)"
  from assms(2) have g': "g' = \<lparr> g_options = fst ?o, g_connections = fst ?n, g_tags = fst ?t \<rparr>"
    and r: "r = last_result (snd ?o @ snd ?n @ snd ?t)"
    by (auto simp: api_request_def Let_def split: sum.splits prod.splits)
  from g' have "g' = g" by (simp add: serve_group_read[OF assms(1)])
  moreover have "set (snd ?o) \<subseteq> {None, Some None}" "set (snd ?n) \<subseteq> {None, Some None}"
    "set (snd ?t) \<subseteq> {None, Some None}"
    by (rule serve_group_read_result[OF assms(1)])+
  then have "set (snd ?o @ snd ?n @ snd ?t) \<subseteq> {None, Some None}"
    by (simp only: set_append Un_subset_iff simp_thms)
  then have "r \<in> {None, Some None}" unfolding r by (rule last_result_read)
  ultimately show ?thesis by simp
qed

theorem api_request_get_assigns_nothing_witness:
  "\<not> is_set_command (override Map.empty ''command'' (Some ''GET'')) \<and>
   api_request example_lib (example_globals False) (Some ''connections'') None (Some ''GET'') None
     Map.empty = Inr (example_globals False, Some None) \<and>
   example_globals False = example_globals False \<and>
   (Some None :: outcome option option) \<in> {None, Some None}"
proof -
  have c: "\<not> is_set_command (override Map.empty ''command'' (Some ''GET''))"
    by code_simp
  have a: "api_request example_lib (example_globals False) (Some ''connections'') None
     (Some ''GET'') None Map.empty = Inr (example_globals False, Some None)"
    by code_simp
  from api_request_get_assigns_nothing [OF c a] c a show ?thesis by simp
qed

text \<open>
  The claim C9 as it is stated fails: a call whose argument \<open>command\<close> is \<open>get\<close> assigns
  when the query options name another command. Here it sets \<open>eof\<close> of the connection.
\<close>

theorem api_request_get_overridden_assigns:
  "api_request example_lib (example_globals False) (Some ''connections'') (Some ''*'') (Some ''get'')
     None [''command'' \<mapsto> ''eof'', ''value'' \<mapsto> ''true'']
   = Inr (example_globals True, Some (Some Success))"
  by code_simp


section \<open>Properties of the session handler\<close>

lemma frame_lengths:
  "length unregister_frame = 24" "length list_services_frame = 24"
  "unregister_frame \<noteq> []" "list_services_frame \<noteq> []"
  by (simp_all add: unregister_frame_def list_services_frame_def)

lemma frame_idle:
  "frame_resume ([], False) \<lparr> pending = [], sent = k \<rparr> = Wait ([], True) \<lparr> pending = [], sent = k \<rparr>"
  by (simp add: frame_resume_def frame_size_def)

lemma frame_closed:
  "frame_resume ([], True) \<lparr> pending = [], sent = k \<rparr> = Done None \<lparr> pending = [], sent = k \<rparr>"
  by (simp add: frame_resume_def frame_size_def)

lemma process_examples:
  "example_process p None = (p, Returns_False)"
  "example_process p (Some unregister_frame) = (p, Returns_False)"
  "example_process p (Some list_services_frame) = (p, Returns_True (Some list_services_frame))"
  by (simp_all add: example_process_def unregister_frame_def list_services_frame_def)







lemma frame_size_unregister: "frame_size (unregister_frame @ xs) = Some 24"
  by (simp add: frame_size_def unregister_frame_def nth_append)

lemma frame_size_list_services: "frame_size (list_services_frame @ xs) = Some 24"
  by (simp add: frame_size_def list_services_frame_def nth_append)

lemma frame_unregister:
  "frame_resume ([], w) \<lparr> pending = unregister_frame @ xs, sent = k \<rparr>
     = Done (Some unregister_frame) \<lparr> pending = xs, sent = k + 24 \<rparr>"
  by (simp add: frame_resume_def frame_size_unregister frame_lengths)

lemma frame_list_services:
  "frame_resume ([], w) \<lparr> pending = list_services_frame @ xs, sent = k \<rparr>
     = Done (Some list_services_frame) \<lparr> pending = xs, sent = k + 24 \<rparr>"
  by (simp add: frame_resume_def frame_size_list_services frame_lengths)

lemma frame_list_services_only:
  "frame_resume ([], w) \<lparr> pending = list_services_frame, sent = k \<rparr>
     = Done (Some list_services_frame) \<lparr> pending = [], sent = k + 24 \<rparr>"
  using frame_list_services[of w "[]" k] by simp

text \<open>
  Claim C1 fails on the code. The peer sends UnRegisterSession and, in the same
  segment, ListServices, and closes later. \<open>enip_process\<close> returns a false value for the
  first frame; the handler sends no reply to it, but it goes through the loop again,
  counts a second request and sends the reply to ListServices.
\<close>

theorem unregister_does_not_end_session:
  "observe
     (enip_srv example_lib frame_machine example_process
        (example_env [unregister_frame @ list_services_frame] [] PNone no_control)
        (Suc (Suc (Suc (Suc (Suc 0))))) Map.empty (''10.0.0.1'', 5000) ())
     (connkey (''10.0.0.1'', 5000))
   = Some (Finished,
           [Ev_recv Timeout_tenth [], Ev_send list_services_frame True, Ev_recv Timeout_tenth []],
           2, False)"
  by (simp add: observe_def enip_srv_def register_def test_eof_def example_env_def
        frame_machine_def no_control_def frame_idle frame_closed frame_unregister
        frame_list_services_only process_examples frame_lengths recv_timeout_def peek_def
        chain_def respond_def reply_def delay_events_def)

text \<open>
  Claim C2 fails on the code. The peer sends two ListServices frames in one segment and
  the send of the first reply raises \<open>socket.error\<close>. The handler goes through the loop
  again, counts the second request and sends its reply.
\<close>

theorem send_error_does_not_end_session:
  "observe
     (enip_srv example_lib frame_machine example_process
        (example_env [list_services_frame @ list_services_frame] [0] PNone no_control)
        (Suc (Suc (Suc (Suc (Suc 0))))) Map.empty (''10.0.0.1'', 5000) ())
     (connkey (''10.0.0.1'', 5000))
   = Some (Finished,
           [Ev_recv Timeout_tenth [], Ev_send list_services_frame False,
            Ev_send list_services_frame True, Ev_recv Timeout_tenth []],
           2, False)"
  by (simp add: observe_def enip_srv_def register_def test_eof_def example_env_def
        frame_machine_def no_control_def frame_idle frame_closed frame_list_services
        frame_list_services_only process_examples frame_lengths recv_timeout_def peek_def
        chain_def respond_def reply_def delay_events_def)
























lemma test_eof_result:
  "test_eof env s = (e, s1) \<Longrightarrow> s1 = s\<lparr> stats_eof := e, test_count := Suc (test_count s) \<rparr>"
  by (auto simp: test_eof_def Let_def)

lemma eof_at_loop_head:
  assumes "fst (test_eof env s)"
  shows "serve_loop lib mach proc env (Suc n) s = Some (Inr (snd (test_eof env s)))"
proof -
  obtain e s1 where t: "test_eof env s = (e, s1)" by (cases "test_eof env s")
  with assms have "e = True" by simp
  with t show ?thesis by simp
qed

lemma eof_at_refill_check:
  assumes "fst (test_eof env s)"
  shows "refill env (Suc n) s = Some (Inr (snd (test_eof env s)))"
proof -
  obtain e s1 where t: "test_eof env s = (e, s1)" by (cases "test_eof env s")
  with assms have "e = True" by simp
  with t show ?thesis by simp
qed

lemma eof_at_refill:
  assumes mach: "\<forall>m sr m' sr'. resume mach m sr = Wait m' sr' \<longrightarrow>
                   (\<exists>sr''. resume mach m' sr' = Done None sr'') \<or>
                   (\<exists>sr''. resume mach m' sr' = NonTerminal sr'')"
    and proc: "\<forall>p rpy. snd (proc p None) \<noteq> Returns_True (Some rpy)"
    and ctl: "ctl env (Suc (test_count s)) \<noteq> Some False"
    and w: "resume mach m (src s) = Wait m' sr"
    and e: "fst (test_eof env (s\<lparr> src := sr \<rparr>))"
  shows "\<exists>r. session_from lib mach proc env (Suc (Suc n)) (Suc k) m s = Some r \<and>
             trace (final r) = trace s \<and> stats_requests (final r) = stats_requests s \<and>
             recv_count (final r) = recv_count s \<and> send_count (final r) = send_count s \<and>
             stats_eof (final r)"
proof -
  define s1 where "s1 = s\<lparr> src := sr, stats_eof := True, test_count := Suc (test_count s) \<rparr>"
  obtain e' t' where t: "test_eof env (s\<lparr> src := sr \<rparr>) = (e', t')"
    by (cases "test_eof env (s\<lparr> src := sr \<rparr>)")
  with e have e': "e' = True" by simp
  from test_eof_result[OF t] e' have t': "t' = s1" by (simp add: s1_def)
  from t e' t' have rf: "refill env (Suc n) (s\<lparr> src := sr \<rparr>) = Some (Inr s1)" by simp
  have s1src: "src s1 = sr" by (simp add: s1_def)
  from mach w consider
      (fin) sr2 where "resume mach m' sr = Done None sr2"
    | (nt) sr2 where "resume mach m' sr = NonTerminal sr2" by blast
  then show ?thesis
  proof cases
    case nt
    with w rf s1src
    have "drive mach env (Suc (Suc n)) m s = Some (Inl (s1\<lparr> src := sr2 \<rparr>))" by simp
    then show ?thesis by (simp add: session_from_def final_def s1_def)
  next
    case fin
    let ?s2 = "s1\<lparr> src := sr2 \<rparr>"
    from fin w rf s1src
    have d: "drive mach env (Suc (Suc n)) m s = Some (Inr (None, ?s2))" by simp
    obtain p' out where po: "proc (proc_state ?s2) None = (p', out)"
      by (cases "proc (proc_state ?s2) None")
    have no: "out \<noteq> Returns_True (Some rpy)" for rpy
    proof -
      from proc have "snd (proc (proc_state ?s2) None) \<noteq> Returns_True (Some rpy)" by blast
      with po show ?thesis by simp
    qed
    show ?thesis
    proof (cases out)
      case (Returns_True x)
      with no have "x = None" by (cases x) auto
      with Returns_True po
      have "respond lib proc env None ?s2 = Abort (?s2\<lparr> proc_state := fst (proc p' None) \<rparr>)"
        by (simp add: respond_def)
      with d show ?thesis by (simp add: session_from_def final_def s1_def)
    next
      case Raises
      with po
      have "respond lib proc env None ?s2 = Abort (?s2\<lparr> proc_state := fst (proc p' None) \<rparr>)"
        by (simp add: respond_def)
      with d show ?thesis by (simp add: session_from_def final_def s1_def)
    next
      case Returns_False
      let ?s3 = "?s2\<lparr> proc_state := p', local_eof := True \<rparr>"
      from Returns_False po
      have r: "respond lib proc env None ?s2 = Continue ?s3" by (simp add: respond_def)
      have "fst (test_eof env ?s3)"
        using ctl by (auto simp: test_eof_def s1_def Let_def split: option.splits)
      from eof_at_loop_head[OF this, of lib mach proc k]
      have l: "serve_loop lib mach proc env (Suc k) ?s3 = Some (Inr (snd (test_eof env ?s3)))" .
      obtain e3 t3 where t3: "test_eof env ?s3 = (e3, t3)" by (cases "test_eof env ?s3")
      from test_eof_result[OF t3]
      have "trace t3 = trace s \<and> stats_requests t3 = stats_requests s \<and>
            recv_count t3 = recv_count s \<and> send_count t3 = send_count s"
        by (simp add: s1_def)
      moreover from t3 \<open>fst (test_eof env ?s3)\<close> test_eof_result[OF t3] have "stats_eof t3" by simp
      ultimately show ?thesis using d r l t3 by (simp add: session_from_def final_def)
    qed
  qed
qed

lemma frame_machine_stops:
  assumes "resume frame_machine m sr = Wait m' sr'"
  shows "(\<exists>sr''. resume frame_machine m' sr' = Done None sr'') \<or>
         (\<exists>sr''. resume frame_machine m' sr' = NonTerminal sr'')"
proof -
  obtain acc w where m: "m = (acc, w)" by (cases m)
  let ?buf = "acc @ pending sr"
  from assms m have c: "(case frame_size ?buf of None \<Rightarrow> None
                         | Some n \<Rightarrow> if n \<le> length ?buf then Some n else None) = None"
    and m': "m' = (?buf, True)" and sr': "pending sr' = []"
    by (auto simp: frame_machine_def frame_resume_def Let_def split: option.splits if_splits)
  from c m' sr' show ?thesis
    by (simp add: frame_machine_def frame_resume_def Let_def)
qed

text \<open>
  Claim C4, for a parser and a processor that keep to what the handler expects of them:
  a parser that has asked for input and is resumed on a source that got none ends, with
  no request or with an exception, and \<open>enip_process\<close> formulates no response when there
  is no request. The control plane does not take back its assignment. Then a test of
  \<open>stats.eof\<close> that finds it true ends the session: at the head of the loop at once; at
  the refill, without a call of \<open>network.recv\<close>, and the rest of the session receives
  nothing, counts no request and sends nothing.
\<close>

theorem eof_ends_session:
  assumes "\<forall>m sr m' sr'. resume mach m sr = Wait m' sr' \<longrightarrow>
                   (\<exists>sr''. resume mach m' sr' = Done None sr'') \<or>
                   (\<exists>sr''. resume mach m' sr' = NonTerminal sr'')"
    and "\<forall>p rpy. snd (proc p None) \<noteq> Returns_True (Some rpy)"
    and "ctl env (Suc (test_count s)) \<noteq> Some False"
  shows "(fst (test_eof env s) \<longrightarrow>
            serve_loop lib mach proc env (Suc n) s = Some (Inr (snd (test_eof env s))) \<and>
            refill env (Suc n) s = Some (Inr (snd (test_eof env s))) \<and>
            trace (snd (test_eof env s)) = trace s) \<and>
         (resume mach m (src s) = Wait m' sr \<and> fst (test_eof env (s\<lparr> src := sr \<rparr>)) \<longrightarrow>
            (\<exists>r. session_from lib mach proc env (Suc (Suc n)) (Suc k) m s = Some r \<and>
                 trace (final r) = trace s \<and> stats_requests (final r) = stats_requests s \<and>
                 recv_count (final r) = recv_count s \<and> send_count (final r) = send_count s \<and>
                 stats_eof (final r)))"
proof (intro conjI impI)
  assume e: "fst (test_eof env s)"
  show "serve_loop lib mach proc env (Suc n) s = Some (Inr (snd (test_eof env s)))"
    by (rule eof_at_loop_head[OF e])
  show "refill env (Suc n) s = Some (Inr (snd (test_eof env s)))"
    by (rule eof_at_refill_check[OF e])
  show "trace (snd (test_eof env s)) = trace s"
    by (simp add: test_eof_def Let_def)
next
  assume a: "resume mach m (src s) = Wait m' sr \<and> fst (test_eof env (s\<lparr> src := sr \<rparr>))"
  then have w: "resume mach m (src s) = Wait m' sr" and e: "fst (test_eof env (s\<lparr> src := sr \<rparr>))"
    by simp_all
  show "\<exists>r. session_from lib mach proc env (Suc (Suc n)) (Suc k) m s = Some r \<and>
                 trace (final r) = trace s \<and> stats_requests (final r) = stats_requests s \<and>
                 recv_count (final r) = recv_count s \<and> send_count (final r) = send_count s \<and>
                 stats_eof (final r)"
    by (rule eof_at_refill[where mach=mach and proc=proc and env=env and s=s and m=m
          and m'=m' and sr=sr and lib=lib and n=n and k=k, OF assms(1) assms(2) assms(3) w e])
qed

theorem eof_ends_session_witness:
  "(\<exists>r. session_from example_lib frame_machine example_process
          (example_env [list_services_frame] [] PNone (set_eof_at (Suc 0))) (Suc (Suc 0)) (Suc 0)
          ([], False)
          (snd (test_eof (example_env [list_services_frame] [] PNone (set_eof_at (Suc 0)))
                  (snd (register Map.empty (''10.0.0.1'', 5000) ())))) = Some r \<and>
        trace (final r) = [] \<and> stats_requests (final r) = 0 \<and> recv_count (final r) = 0 \<and>
        send_count (final r) = 0 \<and> stats_eof (final r)) \<and>
   observe
     (enip_srv example_lib frame_machine example_process
        (example_env [list_services_frame] [] PNone (set_eof_at (Suc 0)))
        (Suc (Suc (Suc 0))) Map.empty (''10.0.0.1'', 5000) ())
     (connkey (''10.0.0.1'', 5000))
   = Some (Finished, [], 0, False)"
proof -
  let ?env = "example_env [list_services_frame] [] PNone (set_eof_at (Suc 0))"
  let ?s = "snd (test_eof ?env (snd (register Map.empty (''10.0.0.1'', 5000) ())))
              :: (unit, int) session"
  let ?sr = "\<lparr> pending = [], sent = 0 \<rparr>"
  have h1: "\<forall>m sr m' sr'. resume frame_machine m sr = Wait m' sr' \<longrightarrow>
                   (\<exists>sr''. resume frame_machine m' sr' = Done None sr'') \<or>
                   (\<exists>sr''. resume frame_machine m' sr' = NonTerminal sr'')"
    by (intro allI impI) (rule frame_machine_stops)
  have h2: "\<forall>p rpy. snd (example_process p None) \<noteq> Returns_True (Some rpy)"
    by (simp add: process_examples)
  have s: "test_count ?s = 1" "src ?s = ?sr" "trace ?s = []" "stats_requests ?s = 0"
    "recv_count ?s = 0" "send_count ?s = 0"
    by (simp_all add: test_eof_def register_def Let_def)
  have h3: "ctl ?env (Suc (test_count ?s)) \<noteq> Some False"
    by (simp add: s example_env_def set_eof_at_def)
  have w: "resume frame_machine ([], False) (src ?s) = Wait ([], True) ?sr"
    by (simp add: s frame_machine_def frame_idle)
  have e: "fst (test_eof ?env (?s\<lparr> src := ?sr \<rparr>))"
    using s(1) by (simp add: test_eof_def example_env_def set_eof_at_def Let_def)
  note t = eof_ends_session [where mach=frame_machine and proc=example_process and env="?env"
      and s="?s" and lib=example_lib and m="([], False)" and m'="([], True)" and sr="?sr"
      and n=0 and k=0, OF h1 h2 h3, THEN conjunct2, THEN mp, OF conjI [OF w e]]
  have a: "\<exists>r. session_from example_lib frame_machine example_process ?env (Suc (Suc 0)) (Suc 0)
          ([], False) ?s = Some r \<and>
        trace (final r) = [] \<and> stats_requests (final r) = 0 \<and> recv_count (final r) = 0 \<and>
        send_count (final r) = 0 \<and> stats_eof (final r)"
    using t by (simp only: s)
  have b: "observe
     (enip_srv example_lib frame_machine example_process ?env
        (Suc (Suc (Suc 0))) Map.empty (''10.0.0.1'', 5000) ())
     (connkey (''10.0.0.1'', 5000))
   = Some (Finished, [], 0, False)"
    by (simp add: observe_def enip_srv_def register_def test_eof_def example_env_def
          frame_machine_def set_eof_at_def frame_idle frame_closed process_examples respond_def)
  from a b show ?thesis by (rule conjI)
qed

end
